theory Spec2Isabelle
  imports Main "HOL-Library.Word"
begin

section \<open>The LZSS compressor of std/compress/lzss/compress.go\<close>

text \<open>
  A shallow embedding of \<^verbatim>\<open>Compress\<close>, \<^verbatim>\<open>longestMostRecentBackRef\<close> and
  \<^verbatim>\<open>emit\<close>. Bytes are 8-bit words. Go's \<^verbatim>\<open>int\<close> index and length variables are
  HOL integers: they are bounded by the length of the input slice, so no index
  computation wraps around; the two shifts \<^verbatim>\<open>1 << (NbBytes * 8)\<close> and the cost
  sums, which can leave the 64-bit range, have the wrap-around written out.
  An error return of the source is \<open>Inl (Error e)\<close>, a run-time panic is
  \<open>Inl (Panic p)\<close>, and a call that never returns is \<open>None\<close>.
\<close>

subsection \<open>Data\<close>

type_synonym byte = "8 word"

datatype ReferenceTo = Compressed | Decompressed

datatype AddressingMode = Relative | Absolute

text \<open>
  Modelled from the spec: the declarations of \<^verbatim>\<open>Settings\<close> and \<^verbatim>\<open>BackRefSettings\<close>
  are not among the sources. The fields are the ones \<^verbatim>\<open>Compress\<close> reads; the two
  byte widths are Go \<^verbatim>\<open>uint\<close> values. \<^verbatim>\<open>Compress\<close> reads the marker byte and the
  widths both as \<^verbatim>\<open>settings.Symbol\<close> and as \<^verbatim>\<open>settings.BackRefSettings.Symbol\<close>:
  \<^verbatim>\<open>BackRefSettings\<close> is a struct embedded in \<^verbatim>\<open>Settings\<close>, here the record that
  \<open>Settings\<close> extends, so both are the same field (the specification's widths
  for marker runs are these widths). The source names only the constants
  \<^verbatim>\<open>Compressed\<close> and \<^verbatim>\<open>Absolute\<close>; the other value of each mode is the supported
  one.
\<close>

record BackRefSettings =
  NbBytesAddress :: nat
  NbBytesLength :: nat
  Symbol :: byte
  ReferenceTo :: ReferenceTo
  AddressingMode :: AddressingMode

record Settings = BackRefSettings +
  Log :: bool

datatype error =
    CompressedRefNotImplemented
  | AbsoluteAddressingNotImplemented
  | LoggingNotImplemented
  | NoBackrefFound
  | NotYetImplemented

datatype panic =
    SliceBoundsOutOfRange
  | IndexOutOfRange
  | AssignmentToEntryInNilMap
  | DoesNotFitInNbBytes

datatype failure = Error error | Panic panic

type_synonym 'a result = "failure + 'a"

subsection \<open>Machine arithmetic\<close>

definition int64 :: "int \<Rightarrow> int" where
  \<comment> \<open>the value of a Go \<^verbatim>\<open>int\<close> after wrap-around to 64 bits, two's complement\<close>
  "int64 x = (x + 2 ^ 63) mod 2 ^ 64 - 2 ^ 63"

definition uint64 :: "int \<Rightarrow> int" where
  \<comment> \<open>the value of a Go \<^verbatim>\<open>uint\<close> after wrap-around to 64 bits\<close>
  "uint64 x = x mod 2 ^ 64"

definition shiftOne :: "nat \<Rightarrow> int" where
  \<comment> \<open>\<^verbatim>\<open>1 << (nbBytes * 8)\<close> on an \<^verbatim>\<open>int\<close>, the shift count a \<^verbatim>\<open>uint\<close>\<close>
  "shiftOne nbBytes = int64 (2 ^ nat (uint64 (int nbBytes * 8)))"

subsection \<open>emit\<close>

text \<open>
  \<^verbatim>\<open>emit\<close> appends the \<open>nbBytes\<close> low bytes of \<open>n\<close>, least significant first,
  shifting \<open>n\<close> right (arithmetically) by 8 after each; it panics when what is
  left of \<open>n\<close> is not zero.
\<close>

fun emit :: "byte list \<Rightarrow> int \<Rightarrow> nat \<Rightarrow> byte list result" where
  "emit bb n 0 = (if n \<noteq> 0 then Inl (Panic DoesNotFitInNbBytes) else Inr bb)"
| "emit bb n (Suc k) = emit (bb @ [word_of_int n]) (n div 256) k"

definition emitBackRef :: "Settings \<Rightarrow> byte list \<Rightarrow> int \<Rightarrow> int \<Rightarrow> byte list result" where
  \<comment> \<open>the closure of lines 40-43: two fields, and no marker byte before them\<close>
  "emitBackRef settings out offset l =
     (case emit out (offset - 1) (NbBytesAddress settings) of
        Inl f \<Rightarrow> Inl f
      | Inr out' \<Rightarrow> emit out' (l - 1) (NbBytesLength settings))"

fun fieldBytes :: "int \<Rightarrow> nat \<Rightarrow> byte list" where
  \<comment> \<open>the \<open>k\<close> low bytes of \<open>n\<close>, least significant first\<close>
  "fieldBytes n 0 = []"
| "fieldBytes n (Suc k) = word_of_int n # fieldBytes (n div 256) k"

subsection \<open>Slices\<close>

text \<open>
  The input is a list; its capacity is taken to be its length. An index
  expression \<^verbatim>\<open>d[k]\<close> panics outside \<open>0 \<le> k < len(d)\<close>, a slice expression
  \<^verbatim>\<open>d[lo:hi]\<close> outside \<open>0 \<le> lo \<le> hi \<le> len(d)\<close>.
\<close>

definition len :: "byte list \<Rightarrow> int" where
  "len d = int (length d)"

definition index :: "byte list \<Rightarrow> int \<Rightarrow> byte result" where
  "index d k = (if 0 \<le> k \<and> k < len d then Inr (d ! nat k) else Inl (Panic IndexOutOfRange))"

definition slice :: "byte list \<Rightarrow> int \<Rightarrow> int \<Rightarrow> byte list result" where
  "slice d lo hi =
     (if 0 \<le> lo \<and> lo \<le> hi \<and> hi \<le> len d then Inr (take (nat (hi - lo)) (drop (nat lo) d))
      else Inl (Panic SliceBoundsOutOfRange))"

subsection \<open>Constants of a call\<close>

text \<open>
  Modelled from the spec: \<^verbatim>\<open>compress.ByteGasCost\<close> is not among the sources. The
  cost oracle is the parameter \<open>gas\<close>, with \<open>gas b\<close> the value of
  \<^verbatim>\<open>int(compress.ByteGasCost(b))\<close>.
\<close>

definition minNontrivialBackRefCost :: "(byte \<Rightarrow> int) \<Rightarrow> Settings \<Rightarrow> int" where
  "minNontrivialBackRefCost gas settings =
     int64 (int64 (gas (Symbol settings) + 8)
            + int64 (int (NbBytesAddress settings) + int (NbBytesLength settings) - 2))"

definition backRefAddressRange :: "Settings \<Rightarrow> int" where
  "backRefAddressRange settings = shiftOne (NbBytesAddress settings)"

definition backRefLengthRange :: "Settings \<Rightarrow> int" where
  "backRefLengthRange settings = shiftOne (NbBytesLength settings)"

subsection \<open>getRunLength\<close>

function runEnd :: "byte list \<Rightarrow> byte \<Rightarrow> int \<Rightarrow> int \<Rightarrow> int result" where
  \<comment> \<open>the loop of line 52, from \<open>j\<close> on; returns the final \<open>j\<close>\<close>
  "runEnd d symbol cap j =
     (if j < len d \<and> j < cap then
        (case index d j of
           Inl f \<Rightarrow> Inl f
         | Inr b \<Rightarrow> if b = symbol then runEnd d symbol cap (j + 1) else Inr j)
      else Inr j)"
  by pat_completeness auto
termination
  by (relation "measure (\<lambda>(d, symbol, cap, j). nat (len d - j))") auto

declare runEnd.simps [simp del]

definition getRunLength :: "byte list \<Rightarrow> byte \<Rightarrow> int \<Rightarrow> int \<Rightarrow> int result" where
  "getRunLength d symbol i cap =
     (case runEnd d symbol (if cap = - 1 then len d else cap) (i + 1) of
        Inl f \<Rightarrow> Inl f
      | Inr j \<Rightarrow> Inr (j - i))"

subsection \<open>The search for an earlier run of the marker byte (lines 76-99)\<close>

function runSearch :: "byte list \<Rightarrow> byte \<Rightarrow> int \<Rightarrow> int \<Rightarrow> int \<times> int \<times> int \<Rightarrow> (int \<times> int \<times> int) result" where
  \<comment> \<open>the loop of lines 81-94 from \<open>k\<close> down; the state is
      (longestRunLen, longestRunStartIndex, currentRunLength)\<close>
  "runSearch d symbol runLength k st =
     (case st of (longestRunLen, longestRunStartIndex, currentRunLength) \<Rightarrow>
        if k \<ge> 0 then
          (case index d k of
             Inl f \<Rightarrow> Inl f
           | Inr b \<Rightarrow>
               (let currentRunLength' = (if b = symbol then currentRunLength + 1 else 0) in
                if currentRunLength' > longestRunLen then
                  (if currentRunLength' = runLength then Inr (currentRunLength', k, currentRunLength')
                   else runSearch d symbol runLength (k - 1) (currentRunLength', k, currentRunLength'))
                else runSearch d symbol runLength (k - 1)
                       (longestRunLen, longestRunStartIndex, currentRunLength')))
        else Inr st)"
  by pat_completeness auto
termination
  by (relation "measure (\<lambda>(d, symbol, runLength, k, st). nat (k + 1))") auto

declare runSearch.simps [simp del]

partial_function (option) markerRunLoop ::
  "Settings \<Rightarrow> byte list \<Rightarrow> int \<Rightarrow> int \<Rightarrow> byte list \<Rightarrow> byte list result option" where
  \<comment> \<open>the loop \<^verbatim>\<open>for runLength > 0\<close> of lines 76-99; its body changes \<open>out\<close> only\<close>
  "markerRunLoop settings d i runLength out =
     (if runLength > 0 then
        (case runSearch d (Symbol settings) runLength (i - 1) (0, 0, 0) of
           Inl f \<Rightarrow> Some (Inl f)
         | Inr (longestRunLen, longestRunStartIndex, currentRunLength) \<Rightarrow>
             if currentRunLength = 0 then Some (Inl (Error NoBackrefFound))
             else
               (case emitBackRef settings out (i - longestRunStartIndex) longestRunLen of
                  Inl f \<Rightarrow> Some (Inl f)
                | Inr out' \<Rightarrow> markerRunLoop settings d i runLength out'))
      else Some (Inr out))"

declare markerRunLoop.simps [code]

text \<open>
  \<open>runFound\<close>: the backward scan of lines 81-94 ends with a current run (so line
  95 does not return) and the two fields of the run it found fit their widths
  (so \<^verbatim>\<open>emit\<close> does not panic). Nothing the loop body does changes this, since
  it writes to \<open>out\<close> only.
\<close>

definition runFound :: "Settings \<Rightarrow> byte list \<Rightarrow> int \<Rightarrow> int \<Rightarrow> bool" where
  "runFound settings d i runLength =
     (case runSearch d (Symbol settings) runLength (i - 1) (0, 0, 0) of
        Inl f \<Rightarrow> False
      | Inr (longestRunLen, longestRunStartIndex, currentRunLength) \<Rightarrow>
          currentRunLength \<noteq> 0
          \<and> (i - longestRunStartIndex - 1) div 256 ^ NbBytesAddress settings = 0
          \<and> (longestRunLen - 1) div 256 ^ NbBytesLength settings = 0)"

subsection \<open>longestMostRecentBackRef\<close>

text \<open>
  The map \<^verbatim>\<open>remainingOptions\<close> is declared with \<^verbatim>\<open>var\<close> and never made: it is
  the nil map. A Go map value is modelled as \<open>None\<close> (nil) or \<open>Some keys\<close>;
  reading, \<^verbatim>\<open>len\<close>, \<^verbatim>\<open>delete\<close> and \<^verbatim>\<open>range\<close> treat nil as empty, and an
  assignment to an entry of the nil map panics.
\<close>

type_synonym intset = "int list option"

definition keys :: "intset \<Rightarrow> int list" where
  "keys m = (case m of None \<Rightarrow> [] | Some ks \<Rightarrow> ks)"

definition assign :: "intset \<Rightarrow> int \<Rightarrow> intset result" where
  "assign m j = (case m of None \<Rightarrow> Inl (Panic AssignmentToEntryInNilMap)
                          | Some ks \<Rightarrow> Inr (Some (List.insert j ks)))"

function scanOptions ::
  "byte list \<Rightarrow> byte list \<Rightarrow> int \<Rightarrow> int \<Rightarrow> int \<Rightarrow> intset \<Rightarrow> intset result" where
  \<comment> \<open>the loop of lines 154-161 from \<open>j\<close> down\<close>
  "scanOptions d minViableBackRef minBackRefAddr minViableBackRefLen j remainingOptions =
     (if j \<ge> 0 \<and> j \<ge> minBackRefAddr then
        (if j + minViableBackRefLen > len d then
           scanOptions d minViableBackRef minBackRefAddr minViableBackRefLen (j - 1) remainingOptions
         else
           (case slice d j (j + minViableBackRefLen) of
              Inl f \<Rightarrow> Inl f
            | Inr w \<Rightarrow>
                if w = minViableBackRef then
                  (case assign remainingOptions j of
                     Inl f \<Rightarrow> Inl f
                   | Inr remainingOptions' \<Rightarrow>
                       scanOptions d minViableBackRef minBackRefAddr minViableBackRefLen (j - 1)
                         remainingOptions')
                else
                  scanOptions d minViableBackRef minBackRefAddr minViableBackRefLen (j - 1)
                    remainingOptions))
      else Inr remainingOptions)"
  by pat_completeness auto
termination
  by (relation "measure (\<lambda>(d, w, a, m, j, r). nat (j + 1))") auto

declare scanOptions.simps [simp del]

fun failing :: "byte list \<Rightarrow> int \<Rightarrow> int \<Rightarrow> int list \<Rightarrow> int list result" where
  \<comment> \<open>the loop of lines 169-173 over the keys: the new \<^verbatim>\<open>toDelete\<close>\<close>
  "failing d i l [] = Inr []"
| "failing d i l (j # js) =
     (if j + l > len d then
        (case failing d i l js of Inl f \<Rightarrow> Inl f | Inr toDelete \<Rightarrow> Inr (j # toDelete))
      else
        (case index d (j + l) of
           Inl f \<Rightarrow> Inl f
         | Inr a \<Rightarrow>
             (case index d (i + l) of
                Inl f \<Rightarrow> Inl f
              | Inr b \<Rightarrow>
                  (case failing d i l js of
                     Inl f \<Rightarrow> Inl f
                   | Inr toDelete \<Rightarrow> Inr (if a \<noteq> b then j # toDelete else toDelete)))))"

lemma failing_length: "failing d i l js = Inr toDelete \<Longrightarrow> length toDelete \<le> length js"
  by (induction js arbitrary: toDelete) (auto split: if_splits sum.splits)

lemma failing_in_range:
  "failing d i l js = Inr toDelete \<Longrightarrow> length toDelete < length js \<Longrightarrow> i + l < len d"
proof (induction js arbitrary: toDelete)
  case Nil
  then show ?case by simp
next
  case (Cons j js)
  show ?case
  proof (cases "j + l > len d")
    case True
    with Cons.prems obtain td where "failing d i l js = Inr td" "toDelete = j # td"
      by (auto split: sum.splits)
    with Cons.prems Cons.IH show ?thesis by auto
  next
    case False
    with Cons.prems obtain b where "index d (i + l) = Inr b"
      by (auto split: sum.splits)
    then show ?thesis by (auto simp: index_def split: if_splits)
  qed
qed

function pruneLoop ::
  "byte list \<Rightarrow> int \<Rightarrow> int \<Rightarrow> int list \<Rightarrow> int list \<Rightarrow> (int \<times> int list \<times> int list) result" where
  \<comment> \<open>the loop of lines 164-174; the state is (l, toDelete, keys of remainingOptions)\<close>
  "pruneLoop d i l toDelete remaining =
     (if length toDelete < length remaining then
        (case failing d i l (filter (\<lambda>j. j \<notin> set toDelete) remaining) of
           Inl f \<Rightarrow> Inl f
         | Inr toDelete' \<Rightarrow>
             pruneLoop d i (l + 1) toDelete' (filter (\<lambda>j. j \<notin> set toDelete) remaining))
      else Inr (l, toDelete, remaining))"
  by pat_completeness auto
termination
proof (relation "measure (\<lambda>(d, i, l, toDelete, remaining).
         if length toDelete < length remaining then nat (len d - (i + l)) + 1 else 0)",
       goal_cases)
  case 1
  show ?case by simp
next
  case (2 d i l toDelete remaining toDelete')
  then show ?case
    by (auto dest: failing_in_range)
qed

declare pruneLoop.simps [simp del]

definition longestMostRecentBackRef ::
  "byte list \<Rightarrow> int \<Rightarrow> int \<Rightarrow> int \<Rightarrow> (int \<times> int) result" where
  "longestMostRecentBackRef d i minBackRefAddr minViableBackRefLen =
     (case slice d i (i + minViableBackRefLen) of
        Inl f \<Rightarrow> Inl f
      | Inr minViableBackRef \<Rightarrow>
          (case scanOptions d minViableBackRef minBackRefAddr minViableBackRefLen (i - 1) None of
             Inl f \<Rightarrow> Inl f
           | Inr remainingOptions \<Rightarrow>
               (case pruneLoop d i minViableBackRefLen [] (keys remainingOptions) of
                  Inl f \<Rightarrow> Inl f
                | Inr (l, toDelete, remaining) \<Rightarrow>
                    if remaining = [] then Inr (- 1, - 1)
                    else
                      (case toDelete of
                         [] \<Rightarrow> Inl (Panic IndexOutOfRange)
                       | mostRecent # _ \<Rightarrow> Inr (fold max toDelete mostRecent, l)))))"

subsection \<open>The body of the main loop\<close>

function viableLoop ::
  "(byte \<Rightarrow> int) \<Rightarrow> Settings \<Rightarrow> byte list \<Rightarrow> int \<Rightarrow> int \<Rightarrow> int \<Rightarrow> bool \<Rightarrow> int result" where
  \<comment> \<open>the loop of lines 110-133; the state is
      (minViableBackRefLength, noBackRefCost, midRle), the result the final
      minViableBackRefLength\<close>
  "viableLoop gas settings d i minViableBackRefLength noBackRefCost midRle =
     (if i + minViableBackRefLength > len d then Inr (- 1)
      else
        (case index d (i + minViableBackRefLength - 1) of
           Inl f \<Rightarrow> Inl f
         | Inr cur \<Rightarrow>
             if cur = Symbol settings then
               viableLoop gas settings d i (minViableBackRefLength + 1) noBackRefCost True
             else
               (let cost1 = (if midRle then int64 (noBackRefCost + minViableBackRefLength)
                             else noBackRefCost);
                    cost2 = int64 (cost1 + gas cur)
                in if cost2 \<ge> minNontrivialBackRefCost gas settings then Inr minViableBackRefLength
                   else viableLoop gas settings d i (minViableBackRefLength + 1) cost2 False)))"
  by pat_completeness auto
termination
  by (relation "measure (\<lambda>(gas, settings, d, i, m, c, r). nat (len d + 1 - (i + m)))") auto

declare viableLoop.simps [simp del]

definition emitMatch ::
  "Settings \<Rightarrow> byte list \<Rightarrow> int \<Rightarrow> byte list \<Rightarrow> int \<times> int \<Rightarrow> (byte list \<times> int) result" where
  \<comment> \<open>lines 135-142, from the matcher's answer \<open>(addr, l)\<close> (address and
      length) to the new \<open>(out, i)\<close>\<close>
  "emitMatch settings d i out r =
     (case r of (addr, l) \<Rightarrow>
        if l \<noteq> - 1 then
          (case emitBackRef settings out (i - addr - 1) (l - 1) of
             Inl f \<Rightarrow> Inl f
           | Inr out' \<Rightarrow> Inr (out', i + l))
        else
          (case index d i of
             Inl f \<Rightarrow> Inl f
           | Inr b \<Rightarrow> Inr (out @ [b], i + 1)))"

definition literalStep ::
  "(byte \<Rightarrow> int) \<Rightarrow> Settings \<Rightarrow> byte list \<Rightarrow> int \<Rightarrow> byte list \<Rightarrow> (byte list \<times> int) result" where
  \<comment> \<open>lines 106-142: the branch of a byte that is not the marker\<close>
  "literalStep gas settings d i out =
     (case index d i of
        Inl f \<Rightarrow> Inl f
      | Inr b \<Rightarrow>
          (case viableLoop gas settings d i 2 (gas b) False of
             Inl f \<Rightarrow> Inl f
           | Inr minViableBackRefLength \<Rightarrow>
               (case longestMostRecentBackRef d i (i - backRefAddressRange settings - 1)
                       minViableBackRefLength of
                  Inl f \<Rightarrow> Inl f
                | Inr r \<Rightarrow> emitMatch settings d i out r)))"

definition symbolStep ::
  "Settings \<Rightarrow> byte list \<Rightarrow> int \<Rightarrow> byte list \<Rightarrow> (byte list \<times> int) result option" where
  \<comment> \<open>lines 63-104: the branch of a marker byte; \<open>None\<close> when the search loop
      never ends\<close>
  "symbolStep settings d i out =
     (let maxJExpressible = i + 1 + backRefLengthRange settings in
      case getRunLength d (Symbol settings) i maxJExpressible of
        Inl f \<Rightarrow> Some (Inl f)
      | Inr runLength \<Rightarrow>
          if i = 0 then
            (case emitBackRef settings out 1 runLength of
               Inl f \<Rightarrow> Some (Inl f)
             | Inr out' \<Rightarrow> Some (Inr (out', i + runLength)))
          else if i \<le> backRefAddressRange settings then
            (case emit out i (NbBytesAddress settings) of
               Inl f \<Rightarrow> Some (Inl f)
             | Inr out1 \<Rightarrow>
                 (case emit out1 (runLength - 1) (NbBytesLength settings) of
                    Inl f \<Rightarrow> Some (Inl f)
                  | Inr out2 \<Rightarrow> Some (Inr (out2, i + runLength))))
          else
            (case markerRunLoop settings d i runLength out of
               None \<Rightarrow> None
             | Some (Inl f) \<Rightarrow> Some (Inl f)
             | Some (Inr out') \<Rightarrow> Some (Inl (Error NotYetImplemented))))"

definition step ::
  "(byte \<Rightarrow> int) \<Rightarrow> Settings \<Rightarrow> byte list \<Rightarrow> int \<Rightarrow> byte list \<Rightarrow> (byte list \<times> int) result option" where
  \<comment> \<open>one turn of the loop of line 59\<close>
  "step gas settings d i out =
     (case index d i of
        Inl f \<Rightarrow> Some (Inl f)
      | Inr b \<Rightarrow>
          if b = Symbol settings then symbolStep settings d i out
          else Some (literalStep gas settings d i out))"

subsection \<open>Every turn of the main loop advances\<close>

text \<open>
  The matcher starts from the nil map, so its scan either panics at the first
  candidate or leaves the map nil; with no key the pruning loop does not run and
  the answer is \<open>(-1, -1)\<close>.
\<close>

lemma runEnd_ge: "runEnd d symbol cap j = Inr j' \<Longrightarrow> j \<le> j'"
proof (induction d symbol cap j rule: runEnd.induct)
  case (1 d symbol cap j)
  show ?case
  proof (cases "j < len d \<and> j < cap")
    case True
    with "1.prems" obtain b where b: "index d j = Inr b"
      by (subst (asm) runEnd.simps) (auto split: sum.splits)
    show ?thesis
    proof (cases "b = symbol")
      case True
      with \<open>j < len d \<and> j < cap\<close> b "1.prems" have "runEnd d symbol cap (j + 1) = Inr j'"
        by (subst (asm) runEnd.simps) simp
      with "1.IH" [OF \<open>j < len d \<and> j < cap\<close> b True] show ?thesis by simp
    next
      case False
      with \<open>j < len d \<and> j < cap\<close> b "1.prems" show ?thesis
        by (subst (asm) runEnd.simps) simp
    qed
  next
    case False
    with "1.prems" show ?thesis by (subst (asm) runEnd.simps) simp
  qed
qed

lemma getRunLength_pos: "getRunLength d symbol i cap = Inr r \<Longrightarrow> 1 \<le> r"
  by (auto simp: getRunLength_def split: sum.splits dest: runEnd_ge)

lemma scanOptions_nil:
  "scanOptions d w a m j None = Inr r \<Longrightarrow> r = None"
proof (induction d w a m j "None :: intset" rule: scanOptions.induct)
  case (1 d w a m j)
  then show ?case
    by (subst (asm) (3) scanOptions.simps) (auto simp: assign_def split: if_splits sum.splits)
qed

lemma pruneLoop_empty: "pruneLoop d i l [] [] = Inr (l, [], [])"
  by (subst pruneLoop.simps) simp

lemma longestMostRecentBackRef_none:
  "longestMostRecentBackRef d i a m = Inr r \<Longrightarrow> r = (- 1, - 1)"
  by (auto simp: longestMostRecentBackRef_def keys_def pruneLoop_empty
           split: sum.splits dest!: scanOptions_nil)

lemma literalStep_advance:
  "literalStep gas settings d i out = Inr (out', i') \<Longrightarrow> i' = i + 1"
  by (auto simp: literalStep_def emitMatch_def split: sum.splits dest!: longestMostRecentBackRef_none)

lemma symbolStep_advance:
  "symbolStep settings d i out = Some (Inr (out', i')) \<Longrightarrow> i < i'"
  by (auto simp: symbolStep_def Let_def split: sum.splits if_splits option.splits
           dest!: getRunLength_pos)

lemma step_advance:
  "step gas settings d i out = Some (Inr (out', i')) \<Longrightarrow> i < i'"
  by (auto simp: step_def split: sum.splits if_splits dest: literalStep_advance symbolStep_advance)

subsection \<open>Compress\<close>

function compressLoop ::
  "(byte \<Rightarrow> int) \<Rightarrow> Settings \<Rightarrow> byte list \<Rightarrow> int \<Rightarrow> byte list \<Rightarrow> byte list result option" where
  \<comment> \<open>the loop of lines 59-144 and the return of line 146\<close>
  "compressLoop gas settings d i out =
     (if i < len d then
        (case step gas settings d i out of
           None \<Rightarrow> None
         | Some (Inl f) \<Rightarrow> Some (Inl f)
         | Some (Inr (out', i')) \<Rightarrow> compressLoop gas settings d i' out')
      else Some (Inr out))"
  by pat_completeness auto
termination
  by (relation "measure (\<lambda>(gas, settings, d, i, out). nat (len d - i))")
     (auto dest: step_advance)

declare compressLoop.simps [simp del]

definition Compress :: "(byte \<Rightarrow> int) \<Rightarrow> Settings \<Rightarrow> byte list \<Rightarrow> byte list result option" where
  "Compress gas settings d =
     (if ReferenceTo settings = Compressed then Some (Inl (Error CompressedRefNotImplemented))
      else if AddressingMode settings = Absolute then
        Some (Inl (Error AbsoluteAddressingNotImplemented))
      else if Log settings then Some (Inl (Error LoggingNotImplemented))
      else compressLoop gas settings d 0 [])"

subsection \<open>The decoder and the token grammar\<close>

text \<open>
  Modelled from the spec: the repository's sources hold no decoder. This is the
  state machine of section 4.5 of the specification: a byte other than the
  marker is copied; a marker is followed by \<open>NbBytesAddress\<close> little-endian bytes
  \<open>rawOffset\<close> and \<open>NbBytesLength\<close> little-endian bytes \<open>rawLength\<close>, and copies
  \<open>rawLength + 1\<close> bytes one at a time, each from \<open>rawOffset + 1\<close> places before the
  end of the output as it stands; it fails when fewer than
  \<open>NbBytesAddress + NbBytesLength\<close> bytes follow a marker and when a source
  position is negative.
\<close>

datatype decodingCorruption = TruncatedStream | NegativeSourcePosition

fun littleEndian :: "byte list \<Rightarrow> nat" where
  "littleEndian [] = 0"
| "littleEndian (b # bs) = unat b + 256 * littleEndian bs"

fun copyBytes :: "byte list \<Rightarrow> nat \<Rightarrow> nat \<Rightarrow> decodingCorruption + byte list" where
  "copyBytes out offset 0 = Inr out"
| "copyBytes out offset (Suc n) =
     (if length out < offset then Inl NegativeSourcePosition
      else copyBytes (out @ [out ! (length out - offset)]) offset n)"

fun decodeFrom :: "Settings \<Rightarrow> byte list \<Rightarrow> byte list \<Rightarrow> decodingCorruption + byte list" where
  "decodeFrom settings [] out = Inr out"
| "decodeFrom settings (b # rest) out =
     (if b \<noteq> Symbol settings then decodeFrom settings rest (out @ [b])
      else if length rest < NbBytesAddress settings + NbBytesLength settings then
        Inl TruncatedStream
      else
        (case copyBytes out
                (littleEndian (take (NbBytesAddress settings) rest) + 1)
                (littleEndian (take (NbBytesLength settings)
                                 (drop (NbBytesAddress settings) rest)) + 1) of
           Inl e \<Rightarrow> Inl e
         | Inr out' \<Rightarrow>
             decodeFrom settings
               (drop (NbBytesAddress settings + NbBytesLength settings) rest) out'))"

definition decode :: "Settings \<Rightarrow> byte list \<Rightarrow> decodingCorruption + byte list" where
  "decode settings c = decodeFrom settings c []"

text \<open>
  Modelled from the spec: the token grammar of section 6, walked as the decoder
  does. \<open>tokenised settings c\<close> holds when every marker byte met by the walk
  has its two fields after it, so that the walk ends at the last byte of \<open>c\<close>.
\<close>

fun tokenised :: "Settings \<Rightarrow> byte list \<Rightarrow> bool" where
  "tokenised settings [] = True"
| "tokenised settings (b # rest) =
     (if b \<noteq> Symbol settings then tokenised settings rest
      else length rest \<ge> NbBytesAddress settings + NbBytesLength settings
           \<and> tokenised settings
                (drop (NbBytesAddress settings + NbBytesLength settings) rest))"

text \<open>
  Modelled from the spec: the bytes of a backreference token (section 6): the
  marker, then \<open>offset - 1\<close> and \<open>length - 1\<close>, each little-endian in its width.
\<close>

fun littleEndianBytes :: "nat \<Rightarrow> nat \<Rightarrow> byte list" where
  "littleEndianBytes n 0 = []"
| "littleEndianBytes n (Suc k) = of_nat n # littleEndianBytes (n div 256) k"

definition backRefToken :: "Settings \<Rightarrow> nat \<Rightarrow> nat \<Rightarrow> byte list" where
  "backRefToken settings offset l =
     Symbol settings # littleEndianBytes (offset - 1) (NbBytesAddress settings)
       @ littleEndianBytes (l - 1) (NbBytesLength settings)"

subsection \<open>Settings and cost oracles of the examples\<close>

definition settings00 :: Settings where
  \<comment> \<open>one-byte fields, marker byte 0x00, every mode the supported one\<close>
  "settings00 = \<lparr>NbBytesAddress = 1, NbBytesLength = 1, Symbol = 0,
                  ReferenceTo = Decompressed, AddressingMode = Relative, Log = False\<rparr>"

definition settingsFF :: Settings where
  \<comment> \<open>the same with marker byte 0xFF\<close>
  "settingsFF = \<lparr>NbBytesAddress = 1, NbBytesLength = 1, Symbol = 255,
                  ReferenceTo = Decompressed, AddressingMode = Relative, Log = False\<rparr>"

definition calldataGas :: "byte \<Rightarrow> int" where
  \<comment> \<open>a cost oracle: 4 for the zero byte, 16 for any other\<close>
  "calldataGas b = (if b = 0 then 4 else 16)"

definition freeGas :: "byte \<Rightarrow> int" where
  \<comment> \<open>the cost oracle of the cost-driven fallback: every byte costs 0\<close>
  "freeGas b = 0"

section \<open>Properties\<close>

subsection \<open>What emit writes\<close>

lemma emit_eq:
  "emit bb n k = (if n div 256 ^ k \<noteq> 0 then Inl (Panic DoesNotFitInNbBytes)
                  else Inr (bb @ fieldBytes n k))"
proof (induction k arbitrary: bb n)
  case 0
  show ?case by simp
next
  case (Suc k)
  have "n div 256 div 256 ^ k = n div 256 ^ Suc k"
    by (simp add: zdiv_zmult2_eq)
  with Suc show ?case by simp
qed

lemma emitBackRef_eq:
  "emitBackRef settings out offset l =
     (if (offset - 1) div 256 ^ NbBytesAddress settings \<noteq> 0
         \<or> (l - 1) div 256 ^ NbBytesLength settings \<noteq> 0
      then Inl (Panic DoesNotFitInNbBytes)
      else Inr (out @ fieldBytes (offset - 1) (NbBytesAddress settings)
                    @ fieldBytes (l - 1) (NbBytesLength settings)))"
  by (simp add: emitBackRef_def emit_eq)

text \<open>
  Lines 135-142: given a match \<open>(addr, l)\<close> the fields written are
  \<open>i - addr - 2\<close> and \<open>l - 2\<close>, since line 136 hands \<^verbatim>\<open>emitBackRef\<close> the distance and the
  length less one and \<^verbatim>\<open>emitBackRef\<close> subtracts one again; given \<open>(-1, -1)\<close> the byte
  at \<open>i\<close> is written as a literal.
\<close>

lemma emitMatch_match:
  "l \<noteq> - 1 \<Longrightarrow>
   emitMatch settings d i out (addr, l) =
     (if (i - addr - 2) div 256 ^ NbBytesAddress settings \<noteq> 0
         \<or> (l - 2) div 256 ^ NbBytesLength settings \<noteq> 0
      then Inl (Panic DoesNotFitInNbBytes)
      else Inr (out @ fieldBytes (i - addr - 2) (NbBytesAddress settings)
                    @ fieldBytes (l - 2) (NbBytesLength settings), i + l))"
  by (simp add: emitMatch_def emitBackRef_eq)


subsection \<open>The search loop for a marker run does not end once it has found a run\<close>

lemma runFound_emits:
  assumes "runLength > 0" "runFound settings d i runLength"
  shows "\<exists>out'. emitBackRef settings out
                  (i - fst (snd (projr (runSearch d (Symbol settings) runLength (i - 1) (0, 0, 0)))))
                  (fst (projr (runSearch d (Symbol settings) runLength (i - 1) (0, 0, 0))))
               = Inr out'"
proof (cases "runSearch d (Symbol settings) runLength (i - 1) (0, 0, 0)")
  case (Inl f)
  with assms show ?thesis by (simp add: runFound_def)
next
  case (Inr st)
  obtain lr ls cr where st: "st = (lr, ls, cr)" by (cases st) auto
  from assms Inr st have
    fits: "(i - ls - 1) div 256 ^ NbBytesAddress settings = 0"
          "(lr - 1) div 256 ^ NbBytesLength settings = 0"
    by (simp_all add: runFound_def)
  have "emitBackRef settings out (i - ls) lr =
          Inr (out @ fieldBytes (i - ls - 1) (NbBytesAddress settings)
                   @ fieldBytes (lr - 1) (NbBytesLength settings))"
    using fits by (simp add: emitBackRef_eq)
  with Inr st show ?thesis by simp
qed

lemma markerRunLoop_Some:
  assumes "markerRunLoop settings d i runLength out = Some y"
  shows "\<not> (runLength > 0 \<and> runFound settings d i runLength)"
proof (rule markerRunLoop.raw_induct
         [where P = "\<lambda>settings d i runLength out y.
                       \<not> (runLength > 0 \<and> runFound settings d i runLength)",
          OF _ assms], goal_cases)
  case (1 loop settings d i runLength out y)
  show ?case
  proof
    assume a: "runLength > 0 \<and> runFound settings d i runLength"
    obtain st where rs: "runSearch d (Symbol settings) runLength (i - 1) (0, 0, 0) = Inr st"
      using a by (cases "runSearch d (Symbol settings) runLength (i - 1) (0, 0, 0)")
                 (simp_all add: runFound_def)
    obtain lr ls cr where st: "st = (lr, ls, cr)" by (cases st) auto
    from a rs st have cr: "cr \<noteq> 0" by (simp add: runFound_def)
    from a rs st obtain out' where e: "emitBackRef settings out (i - ls) lr = Inr out'"
      using runFound_emits [of runLength settings d i out] by auto
    with "1"(2) a rs st cr have "loop settings d i runLength out' = Some y" by simp
    from "1"(1) [OF this] a show False by simp
  qed
qed

lemma markerRunLoop_diverges:
  "runLength > 0 \<Longrightarrow> runFound settings d i runLength \<Longrightarrow>
   markerRunLoop settings d i runLength out = None"
  using markerRunLoop_Some [of settings d i runLength out]
  by (cases "markerRunLoop settings d i runLength out") auto

subsection \<open>What the matcher answers\<close>



subsection \<open>Compress returns an output for runs of the marker byte only\<close>

text \<open>
  At the last byte of the input that is not the marker the viability loop runs
  to the end of the input and leaves \<^verbatim>\<open>minViableBackRefLength = -1\<close>, with
  which the matcher panics. So an input on which \<open>Compress\<close> returns an output
  holds marker bytes only.
\<close>

lemma runEnd_markers:
  "runEnd d symbol cap j = Inr j' \<Longrightarrow> j \<le> k \<Longrightarrow> k < j' \<Longrightarrow> index d k = Inr symbol"
proof (induction d symbol cap j rule: runEnd.induct)
  case (1 d symbol cap j)
  from "1.prems" have ne: "j \<noteq> j'" by simp
  with "1.prems"(1) have c: "j < len d \<and> j < cap"
    by (subst (asm) runEnd.simps) (auto split: if_splits)
  with "1.prems"(1) obtain b where b: "index d j = Inr b"
    by (subst (asm) runEnd.simps) (auto split: sum.splits)
  with c ne "1.prems"(1) have bs: "b = symbol"
    by (subst (asm) runEnd.simps) (auto split: if_splits)
  with c b "1.prems"(1) have r: "runEnd d symbol cap (j + 1) = Inr j'"
    by (subst (asm) runEnd.simps) simp
  show ?case
  proof (cases "k = j")
    case True
    with b bs show ?thesis by simp
  next
    case False
    with "1.prems" have "j + 1 \<le> k" by simp
    from "1.IH" [OF c b bs r this "1.prems"(3)] show ?thesis .
  qed
qed

lemma viableLoop_markers:
  "0 \<le> i + m - 1 \<Longrightarrow> (\<And>k. i + m - 1 \<le> k \<Longrightarrow> k < len d \<Longrightarrow> index d k = Inr (Symbol settings)) \<Longrightarrow>
   viableLoop gas settings d i m c r = Inr (- 1)"
proof (induction gas settings d i m c r rule: viableLoop.induct)
  case (1 gas settings d i m c r)
  show ?case
  proof (cases "i + m > len d")
    case True
    then show ?thesis by (subst viableLoop.simps) simp
  next
    case False
    then have "i + m - 1 < len d" by simp
    with "1.prems" have ix: "index d (i + m - 1) = Inr (Symbol settings)" by simp
    have "viableLoop gas settings d i (m + 1) c True = Inr (- 1)"
      using "1.prems" by (intro "1.IH"(1) [OF False ix]) auto
    with False ix show ?thesis by (subst viableLoop.simps) simp
  qed
qed

lemma literalStep_before_markers:
  assumes "0 \<le> i" "i < len d"
    and "\<And>k. i + 1 \<le> k \<Longrightarrow> k < len d \<Longrightarrow> index d k = Inr (Symbol settings)"
  shows "literalStep gas settings d i out = Inl (Panic SliceBoundsOutOfRange)"
proof -
  from assms(1,2) obtain b where b: "index d i = Inr b"
    by (simp add: index_def)
  have "viableLoop gas settings d i 2 (gas b) False = Inr (- 1)"
    using assms by (intro viableLoop_markers) auto
  with b show ?thesis
    by (simp add: literalStep_def longestMostRecentBackRef_def slice_def)
qed

lemma symbolStep_run:
  assumes "symbolStep settings d i out = Some (Inr (out', i'))" "i < k" "k < i'"
  shows "index d k = Inr (Symbol settings)"
proof -
  from assms(1) obtain runLength where
    g: "getRunLength d (Symbol settings) i (i + 1 + backRefLengthRange settings) = Inr runLength"
    and i': "i' = i + runLength"
    by (auto simp: symbolStep_def Let_def split: sum.splits if_splits option.splits)
  from g obtain cap where "runEnd d (Symbol settings) cap (i + 1) = Inr (i + runLength)"
    by (auto simp: getRunLength_def split: sum.splits)
  from runEnd_markers [OF this, of k] assms(2,3) i' show ?thesis by simp
qed

lemma compressLoop_success_markers:
  "compressLoop gas settings d i out = Some (Inr out') \<Longrightarrow> 0 \<le> i \<Longrightarrow>
   i \<le> k \<Longrightarrow> k < len d \<Longrightarrow> index d k = Inr (Symbol settings)"
proof (induction gas settings d i out arbitrary: k rule: compressLoop.induct)
  case (1 gas settings d i out)
  from "1.prems" have lt: "i < len d" by simp
  with "1.prems"(1) obtain out1 i1 where
    st: "step gas settings d i out = Some (Inr (out1, i1))"
    and rest: "compressLoop gas settings d i1 out1 = Some (Inr out')"
    by (subst (asm) compressLoop.simps) (auto split: option.splits sum.splits)
  from st have adv: "i < i1" by (rule step_advance)
  have tail: "\<And>k. i1 \<le> k \<Longrightarrow> k < len d \<Longrightarrow> index d k = Inr (Symbol settings)"
    using "1.IH" [OF lt st refl refl rest] adv "1.prems"(2) by simp
  from lt "1.prems"(2) obtain b where b: "index d i = Inr b"
    by (simp add: index_def)
  show ?case
  proof (cases "b = Symbol settings")
    case True
    with st b have sy: "symbolStep settings d i out = Some (Inr (out1, i1))"
      by (simp add: step_def)
    show ?thesis
    proof (cases "k = i")
      case True
      with b \<open>b = Symbol settings\<close> show ?thesis by simp
    next
      case False
      with "1.prems" have "i < k" by simp
      show ?thesis
      proof (cases "k < i1")
        case True
        from symbolStep_run [OF sy \<open>i < k\<close> True] show ?thesis .
      next
        case False
        with tail "1.prems" show ?thesis by simp
      qed
    qed
  next
    case False
    with st b have li: "literalStep gas settings d i out = Inr (out1, i1)"
      by (simp add: step_def)
    then have "i1 = i + 1" by (rule literalStep_advance)
    with tail have "\<And>k. i + 1 \<le> k \<Longrightarrow> k < len d \<Longrightarrow> index d k = Inr (Symbol settings)"
      by simp
    from literalStep_before_markers [OF "1.prems"(2) lt this] li show ?thesis by simp
  qed
qed

lemma Compress_success_markers:
  assumes "Compress gas settings d = Some (Inr out)"
  shows "set d \<subseteq> {Symbol settings}"
proof
  fix b assume "b \<in> set d"
  then obtain n where n: "n < length d" "d ! n = b"
    by (auto simp: in_set_conv_nth)
  from assms have "compressLoop gas settings d 0 [] = Some (Inr out)"
    by (auto simp: Compress_def split: if_splits)
  from compressLoop_success_markers [OF this, of "int n"] n
  show "b \<in> {Symbol settings}"
    by (simp add: index_def len_def)
qed

lemma Compress_without_marker:
  assumes "d \<noteq> []" "Symbol settings \<notin> set d"
  shows "Compress gas settings d \<noteq> Some (Inr out)"
proof
  assume "Compress gas settings d = Some (Inr out)"
  then have "set d \<subseteq> {Symbol settings}" by (rule Compress_success_markers)
  with assms show False by (cases d) auto
qed

text \<open>
  A run of \<open>k\<close> marker bytes, \<open>k\<close> within the length range, is the whole input:
  the output is the two fields of the backreference of offset 1 and length \<open>k\<close>.
\<close>

lemma int64_le: "0 \<le> x \<Longrightarrow> int64 x \<le> x"
proof -
  assume "0 \<le> x"
  then have "(x + 2 ^ 63) mod 2 ^ 64 \<le> x + 2 ^ 63"
    by (intro zmod_le_nonneg_dividend) simp
  then show ?thesis by (simp add: int64_def)
qed

lemma shiftOne_le: "shiftOne n \<le> 256 ^ n"
proof -
  have "uint64 (int n * 8) \<le> int n * 8"
    unfolding uint64_def by (intro zmod_le_nonneg_dividend) simp
  then have "nat (uint64 (int n * 8)) \<le> 8 * n" by simp
  then have "(2::int) ^ nat (uint64 (int n * 8)) \<le> 2 ^ (8 * n)"
    by (intro power_increasing) simp_all
  also have "(2::int) ^ (8 * n) = 256 ^ n"
    by (simp add: power_mult)
  finally have "(2::int) ^ nat (uint64 (int n * 8)) \<le> 256 ^ n" .
  moreover have "int64 (2 ^ nat (uint64 (int n * 8))) \<le> 2 ^ nat (uint64 (int n * 8))"
    by (intro int64_le) simp
  ultimately show ?thesis by (simp add: shiftOne_def)
qed

lemma runEnd_replicate:
  assumes "0 \<le> j" "j \<le> int k" "int k \<le> cap"
  shows "runEnd (replicate k symbol) symbol cap j = Inr (int k)"
  using assms
proof (induction "nat (int k - j)" arbitrary: j)
  case 0
  then have "j = int k" by simp
  then show ?case by (subst runEnd.simps) (simp add: len_def)
next
  case (Suc n)
  then have lt: "j < int k" by simp
  with Suc.prems have ix: "index (replicate k symbol) j = Inr symbol"
    by (simp add: index_def len_def)
  have "runEnd (replicate k symbol) symbol cap (j + 1) = Inr (int k)"
    using Suc.hyps(2) Suc.prems lt by (intro Suc.hyps(1)) auto
  with lt ix Suc.prems show ?case
    by (subst runEnd.simps) (simp add: len_def)
qed

lemma Compress_marker_run:
  assumes sup: "ReferenceTo settings \<noteq> Compressed" "AddressingMode settings \<noteq> Absolute"
               "\<not> Log settings"
    and k: "1 \<le> k" "int k \<le> backRefLengthRange settings"
  shows "Compress gas settings (replicate k (Symbol settings)) =
           Some (Inr (fieldBytes 0 (NbBytesAddress settings)
                      @ fieldBytes (int k - 1) (NbBytesLength settings)))"
proof -
  let ?d = "replicate k (Symbol settings)"
  let ?out = "fieldBytes 0 (NbBytesAddress settings) @ fieldBytes (int k - 1) (NbBytesLength settings)"
  have l: "len ?d = int k" by (simp add: len_def)
  have ix: "index ?d 0 = Inr (Symbol settings)"
    using k by (simp add: index_def len_def)
  have "runEnd ?d (Symbol settings) (0 + 1 + backRefLengthRange settings) (0 + 1) = Inr (int k)"
    using k by (intro runEnd_replicate) auto
  with k have g: "getRunLength ?d (Symbol settings) 0 (0 + 1 + backRefLengthRange settings) = Inr (int k)"
    by (simp add: getRunLength_def)
  have "int k \<le> 256 ^ NbBytesLength settings"
    using k(2) shiftOne_le [of "NbBytesLength settings"] unfolding backRefLengthRange_def
    by linarith
  then have "int k - 1 < 256 ^ NbBytesLength settings"
    by linarith
  moreover have "0 \<le> int k - 1"
    using k(1) by linarith
  ultimately have "(int k - 1) div 256 ^ NbBytesLength settings = 0"
    by (intro div_pos_pos_trivial)
  then have e: "emitBackRef settings [] 1 (int k) = Inr ?out"
    by (simp add: emitBackRef_eq)
  have st: "step gas settings ?d 0 [] = Some (Inr (?out, int k))"
    using ix g e by (simp add: step_def symbolStep_def)
  have "compressLoop gas settings ?d 0 [] = Some (Inr ?out)"
    using k(1) l st
    by (subst compressLoop.simps, simp, subst compressLoop.simps, simp)
  with sup show ?thesis by (simp add: Compress_def)
qed


subsection \<open>The decoder on a backreference at the start of the stream\<close>

text \<open>
  \<open>Compress\<close> treats the positions before the input as holding the marker byte
  (comment of line 21) and refers to them from a run at the start. The decoder
  of section 4.5 fails on a source position before the output: it rejects the
  token of offset 1 at the start of a stream, marker byte or not.
\<close>

lemma decode_token_at_start:
  "decode settingsFF (backRefToken settingsFF 1 3) = Inl NegativeSourcePosition"
  by code_simp

section \<open>The claims\<close>

text \<open>
  C9 (unsupported settings rejection). Whatever the input and the cost oracle,
  \<open>Compress\<close> called with \<open>ReferenceTo = Compressed\<close>, with
  \<open>AddressingMode = Absolute\<close> or with \<open>Log = True\<close> returns an error and no output;
  the three errors differ, the checks are made in this order, and the answer is
  the same for every input, so no input byte was looked at.
\<close>

theorem unsupported_settings_rejected:
  "(ReferenceTo settings = Compressed \<longrightarrow>
      Compress gas settings d = Some (Inl (Error CompressedRefNotImplemented)))
   \<and> (ReferenceTo settings \<noteq> Compressed \<and> AddressingMode settings = Absolute \<longrightarrow>
      Compress gas settings d = Some (Inl (Error AbsoluteAddressingNotImplemented)))
   \<and> (ReferenceTo settings \<noteq> Compressed \<and> AddressingMode settings \<noteq> Absolute \<and> Log settings \<longrightarrow>
      Compress gas settings d = Some (Inl (Error LoggingNotImplemented)))
   \<and> (ReferenceTo settings = Compressed \<or> AddressingMode settings = Absolute \<or> Log settings \<longrightarrow>
      Compress gas settings d = Compress gas' settings d')
   \<and> CompressedRefNotImplemented \<noteq> AbsoluteAddressingNotImplemented
   \<and> CompressedRefNotImplemented \<noteq> LoggingNotImplemented
   \<and> AbsoluteAddressingNotImplemented \<noteq> LoggingNotImplemented"
  by (simp add: Compress_def)

theorem unsupported_settings_rejected_witness:
  "Compress calldataGas (settings00\<lparr>ReferenceTo := Compressed\<rparr>) [1, 0, 1]
     = Some (Inl (Error CompressedRefNotImplemented))
   \<and> Compress calldataGas (settings00\<lparr>AddressingMode := Absolute\<rparr>) [1, 0, 1]
     = Some (Inl (Error AbsoluteAddressingNotImplemented))
   \<and> Compress calldataGas (settings00\<lparr>Log := True\<rparr>) [1, 0, 1]
     = Some (Inl (Error LoggingNotImplemented))
   \<and> Compress calldataGas (settings00\<lparr>Log := True\<rparr>) [1, 0, 1]
     = Compress freeGas (settings00\<lparr>Log := True\<rparr>) []"
  using unsupported_settings_rejected
          [of "settings00\<lparr>ReferenceTo := Compressed\<rparr>" calldataGas "[1, 0, 1]" freeGas "[]"]
        unsupported_settings_rejected
          [of "settings00\<lparr>AddressingMode := Absolute\<rparr>" calldataGas "[1, 0, 1]" freeGas "[]"]
        unsupported_settings_rejected
          [of "settings00\<lparr>Log := True\<rparr>" calldataGas "[1, 0, 1]" freeGas "[]"]
  by (auto simp: settings00_def)

text \<open>
  C1 (round trip). The claim: decoding what \<open>Compress\<close> returns gives the
  input back. On the one-byte input that is the marker, \<open>Compress\<close> succeeds and
  returns the two fields of a backreference with no marker byte before them.
  With marker 0xFF the decoder copies the two zero bytes as literals and returns
  \<open>[0, 0]\<close>, not \<open>[255]\<close>; with marker 0x00 it reads the first field as a marker
  and fails on a truncated stream.
\<close>

theorem roundtrip_single_marker:
  "Compress calldataGas settingsFF [255] = Some (Inr [0, 0])
   \<and> decode settingsFF [0, 0] = Inr [0, 0]
   \<and> decode settingsFF [0, 0] \<noteq> Inr [255]
   \<and> Compress calldataGas settings00 [0] = Some (Inr [0, 0])
   \<and> decode settings00 [0, 0] = Inl TruncatedStream"
  by code_simp

text \<open>
  C2 (no bare marker literal). The claim: in the output a byte equal to the
  marker always begins a backreference token, and the walk over the tokens ends
  at the last byte. With marker 0x00 the input \<open>[0]\<close> is compressed to \<open>[0, 0]\<close>:
  the walk takes the first byte for a marker and finds one byte where two
  fields are due.
\<close>

theorem bare_marker_in_output:
  "Compress calldataGas settings00 [0] = Some (Inr [0, 0])
   \<and> Symbol settings00 \<in> set [0, 0]
   \<and> \<not> tokenised settings00 [0, 0]"
  by code_simp

text \<open>
  C3 (wire format of a backreference). The claim: each backreference written is
  the marker byte, then \<open>offset - 1\<close>, then \<open>length - 1\<close>. For the input of two marker
  bytes 0xFF the backreference of offset 1 and length 2 is written as \<open>[0, 1]\<close>:
  the two fields are there, the marker byte that the token \<open>[255, 0, 1]\<close> starts
  with is not, and the marker is no byte of the output at all.
\<close>

theorem backref_written_without_marker:
  "Compress calldataGas settingsFF [255, 255] = Some (Inr [0, 1])
   \<and> backRefToken settingsFF 1 2 = [255, 0, 1]
   \<and> Symbol settingsFF \<notin> set [0, 1]"
  by code_simp





text \<open>
  C6 (deterministic completion). The claim: \<open>Compress\<close> always returns, and the
  search loop for a marker run always ends. The input is 256 marker bytes 0x00,
  then 1, 0, 1. The first 256 bytes are one backreference, the byte 1 is a
  literal, and the marker at position 257 is beyond the address range, so the
  search loop of lines 76-99 runs: it finds the marker at position 255, writes
  a backreference, and starts again with \<open>runLength\<close> unchanged, for ever.
  \<open>Compress\<close> returns nothing.
\<close>

theorem compress_never_returns:
  "Compress calldataGas settings00 (replicate 256 0 @ [1, 0, 1]) = None"
proof -
  let ?d = "replicate 256 0 @ [1, 0, 1] :: byte list"
  have s0: "step calldataGas settings00 ?d 0 [] = Some (Inr ([0, 255], 256))"
    by code_simp
  have s1: "step calldataGas settings00 ?d 256 [0, 255] = Some (Inr ([0, 255, 1], 257))"
    by code_simp
  have f: "runFound settings00 ?d 257 1"
    by code_simp
  have g: "getRunLength ?d 0 257 (257 + 1 + 256) = Inr 1"
    by code_simp
  have r: "backRefAddressRange settings00 = 256" "backRefLengthRange settings00 = 256"
    by code_simp+
  have i: "index ?d 257 = Inr 0"
    by code_simp
  have "markerRunLoop settings00 ?d 257 1 [0, 255, 1] = None"
    using f by (simp add: markerRunLoop_diverges)
  then have s2: "step calldataGas settings00 ?d 257 [0, 255, 1] = None"
    using g r i by (simp add: step_def symbolStep_def settings00_def)
  have l: "len ?d = 259"
    by (simp add: len_def)
  have "compressLoop calldataGas settings00 ?d 0 [] = None"
    apply (subst compressLoop.simps, simp add: l s0)
    apply (subst compressLoop.simps, simp add: l s1)
    apply (subst compressLoop.simps, simp add: l s2)
    done
  then show ?thesis
    by (simp add: Compress_def settings00_def)
qed

text \<open>
  C7 (cost-driven fallback). The claim: with every literal free, an input
  without the marker byte is returned as it is. With the oracle that is 0
  everywhere the viability loop of lines 110-133 never reaches the cost of a
  backreference, sets \<^verbatim>\<open>minViableBackRefLength = -1\<close> at the end of the input,
  and the matcher is called with it: its first statement slices
  \<^verbatim>\<open>d[i : i-1]\<close> and panics. So it is on \<open>[1]\<close> and on \<open>[1, 2, 3]\<close>.
\<close>

theorem free_literals_panic:
  "Symbol settings00 \<notin> set [1]
   \<and> Compress freeGas settings00 [1] = Some (Inl (Panic SliceBoundsOutOfRange))
   \<and> Symbol settings00 \<notin> set [1, 2, 3]
   \<and> Compress freeGas settings00 [1, 2, 3] = Some (Inl (Panic SliceBoundsOutOfRange))"
  by code_simp

text \<open>
  C8 (bootstrap). The claim: \<open>k\<close> marker bytes are compressed to one
  backreference token of offset 1 and length \<open>k\<close>, which the decoder turns back
  into \<open>k\<close> marker bytes. Three bytes 0xFF are compressed to \<open>[0, 2]\<close>, the two
  fields of that token without its marker byte; the token is \<open>[255, 0, 2]\<close>, and the
  decoder reads \<open>[0, 2]\<close> as two literals.
\<close>

theorem bootstrap_run_without_marker:
  "Compress calldataGas settingsFF (replicate 3 255) = Some (Inr [0, 2])
   \<and> backRefToken settingsFF 1 3 = [255, 0, 2]
   \<and> decode settingsFF [0, 2] = Inr [0, 2]
   \<and> decode settingsFF [0, 2] \<noteq> Inr (replicate 3 255)"
  by code_simp

text \<open>
  C10 (no panic). The claim: with supported settings \<open>Compress\<close> never panics:
  the slice of the matcher is well formed, the insertions into its map are
  defined, and every value given to \<^verbatim>\<open>emit\<close> fits. Each of the three fails: on
  \<open>[1]\<close> the slice is \<^verbatim>\<open>d[0 : -1]\<close>; on \<open>[1, 1, 1]\<close> the candidate at position 0
  is assigned into the nil map; on 257 marker bytes the run length 257 is
  written as 256 into a field of one byte.
\<close>

theorem compress_panics:
  "Compress calldataGas settings00 [1] = Some (Inl (Panic SliceBoundsOutOfRange))
   \<and> Compress calldataGas settings00 [1, 1, 1] = Some (Inl (Panic AssignmentToEntryInNilMap))
   \<and> Compress calldataGas settings00 (replicate 257 0) = Some (Inl (Panic DoesNotFitInNbBytes))"
  by code_simp

end
